theory Spec2Isabelle
  imports Complex_Main "HOL-Library.AList" "HOL-Library.Product_Lexorder"
begin

section \<open>Tensor elements\<close>

text \<open>
  The learner of \<^verbatim>\<open>inclearn/models/icarl.py\<close> computes on torch tensors of floats.
  An element is modelled as an extended real: a finite value, one of the two infinities,
  or NaN. The operations follow the IEEE rules for the special values (NaN is sticky,
  \<open>inf - inf\<close>, \<open>0 / 0\<close> and \<open>inf / inf\<close> are NaN) and are exact on finite values:
  rounding, overflow and signed zeros are outside the model.
\<close>

datatype fl = Num real | PInf | NInf | NaN

fun isnan :: "fl \<Rightarrow> bool" where
  "isnan NaN = True"
| "isnan _ = False"

fun isfinite :: "fl \<Rightarrow> bool" where
  "isfinite (Num _) = True"
| "isfinite _ = False"

fun fneg :: "fl \<Rightarrow> fl" where
  "fneg (Num a) = Num (- a)"
| "fneg PInf = NInf"
| "fneg NInf = PInf"
| "fneg NaN = NaN"

fun fadd :: "fl \<Rightarrow> fl \<Rightarrow> fl" where
  "fadd (Num a) (Num b) = Num (a + b)"
| "fadd NaN _ = NaN"
| "fadd _ NaN = NaN"
| "fadd PInf NInf = NaN"
| "fadd NInf PInf = NaN"
| "fadd PInf _ = PInf"
| "fadd _ PInf = PInf"
| "fadd NInf _ = NInf"
| "fadd _ NInf = NInf"

definition fsub :: "fl \<Rightarrow> fl \<Rightarrow> fl" where
  "fsub a b = fadd a (fneg b)"

text \<open>\<^verbatim>\<open>torch.pow(x, 2)\<close>, and the square inside the 2-norm.\<close>

fun fpow2 :: "fl \<Rightarrow> fl" where
  "fpow2 (Num a) = Num (a * a)"
| "fpow2 PInf = PInf"
| "fpow2 NInf = PInf"
| "fpow2 NaN = NaN"

text \<open>
  Tensor division never raises: a finite non-zero value over zero is an infinity, and
  zero over zero is NaN.
\<close>

fun fdiv :: "fl \<Rightarrow> fl \<Rightarrow> fl" where
  "fdiv (Num a) (Num b) =
     (if b \<noteq> 0 then Num (a / b) else if a = 0 then NaN else if 0 < a then PInf else NInf)"
| "fdiv NaN _ = NaN"
| "fdiv _ NaN = NaN"
| "fdiv (Num a) _ = Num 0"
| "fdiv PInf (Num b) = (if 0 \<le> b then PInf else NInf)"
| "fdiv NInf (Num b) = (if 0 \<le> b then NInf else PInf)"
| "fdiv _ _ = NaN"

fun fsqrt :: "fl \<Rightarrow> fl" where
  "fsqrt (Num a) = (if 0 \<le> a then Num (sqrt a) else NaN)"
| "fsqrt PInf = PInf"
| "fsqrt NInf = NaN"
| "fsqrt NaN = NaN"

text \<open>The comparison \<^verbatim>\<open>x >= c\<close> against a finite constant; false on NaN.\<close>

fun fge :: "fl \<Rightarrow> real \<Rightarrow> bool" where
  "fge (Num a) c = (c \<le> a)"
| "fge PInf c = True"
| "fge NInf c = False"
| "fge NaN c = False"

text \<open>\<^verbatim>\<open>clamp_min(c)\<close>, which \<^verbatim>\<open>F.normalize\<close> applies to the norm; NaN stays NaN.\<close>

fun clamp_min :: "fl \<Rightarrow> real \<Rightarrow> fl" where
  "clamp_min (Num a) c = Num (max a c)"
| "clamp_min PInf c = PInf"
| "clamp_min NInf c = Num c"
| "clamp_min NaN c = NaN"

text \<open>
  The position of an element in torch's sorting order, as a key of a linear order:
  \<open>-inf\<close> first, then the finite values, then \<open>+inf\<close>, and NaN last.
\<close>

fun sort_rank :: "fl \<Rightarrow> nat \<times> real" where
  "sort_rank NInf = (0, 0)"
| "sort_rank (Num a) = (1, a)"
| "sort_rank PInf = (2, 0)"
| "sort_rank NaN = (3, 0)"



section \<open>Vectors and matrices\<close>

type_synonym vec = "fl list"
type_synonym mat = "fl list list"

primrec vsum :: "vec \<Rightarrow> fl" where
  "vsum [] = Num 0"
| "vsum (x # xs) = fadd x (vsum xs)"

definition vadd :: "vec \<Rightarrow> vec \<Rightarrow> vec" where
  "vadd a b = map2 fadd a b"

definition vsub :: "vec \<Rightarrow> vec \<Rightarrow> vec" where
  "vsub a b = map2 fsub a b"

definition vscale_div :: "vec \<Rightarrow> fl \<Rightarrow> vec" where
  "vscale_div a d = map (\<lambda>x. fdiv x d) a"

text \<open>\<^verbatim>\<open>v.norm(2)\<close>: the Euclidean norm.\<close>

definition vnorm :: "vec \<Rightarrow> fl" where
  "vnorm v = fsqrt (vsum (map fpow2 v))"

definition eps :: real where
  "eps = 1 / 10 ^ 12"

text \<open>\<^verbatim>\<open>F.normalize(v, dim=0)\<close> on a vector: \<open>v / max(||v||, eps)\<close>.\<close>

definition normalize_vec :: "vec \<Rightarrow> vec" where
  "normalize_vec v = vscale_div v (clamp_min (vnorm v) eps)"

text \<open>
  A matrix is the list of its rows; every row has \<open>d\<close> entries, the feature extractor's
  output dimension. \<open>column\<close> is only applied below its row length.
\<close>

definition column :: "nat \<Rightarrow> mat \<Rightarrow> vec" where
  "column c M = map (\<lambda>row. row ! c) M"

text \<open>\<^verbatim>\<open>torch.mean(M, dim=0)\<close>: the mean of the rows.\<close>

definition mean_dim0 :: "nat \<Rightarrow> mat \<Rightarrow> vec" where
  "mean_dim0 d M = map (\<lambda>c. fdiv (vsum (column c M)) (Num (real (length M)))) [0..<d]"

text \<open>\<^verbatim>\<open>F.normalize(M, dim=0)\<close> on a matrix: every column is divided by its norm.\<close>

definition normalize_dim0 :: "nat \<Rightarrow> mat \<Rightarrow> mat" where
  "normalize_dim0 d M =
     (let dens = map (\<lambda>c. clamp_min (vnorm (column c M)) eps) [0..<d]
      in map (\<lambda>row. map2 fdiv row dens) M)"


text \<open>
  \<^verbatim>\<open>distances.argsort()\<close>: the positions \<open>0..n-1\<close> in ascending order of their
  element. torch leaves the order of equal elements open; the model takes the stable
  order, in which equal elements keep their positions' order. The theorems below use
  only that the result lists every position once, in ascending order of the elements;
  the order of equal elements shows in the evaluation of examples only.
\<close>

definition argsort :: "vec \<Rightarrow> nat list" where
  "argsort ds = sort_key (\<lambda>i. sort_rank (ds ! i)) [0..<length ds]"


section \<open>Python values\<close>

datatype value_error =
    NoExamplarMeans
  | InconsistentMeans nat int

datatype error =
    KeyError
  | ZeroDivisionError
  | RuntimeError
  | TypeError
  | AttributeError
  | IndexError
  | AssertionError
  | ValueError value_error

text \<open>\<^verbatim>\<open>range(lo, hi)\<close> over Python integers.\<close>

definition py_range :: "int \<Rightarrow> int \<Rightarrow> int list" where
  "py_range lo hi = map (\<lambda>i. lo + int i) [0..<nat (hi - lo)]"

text \<open>The slice \<^verbatim>\<open>xs[:m]\<close>; a negative bound counts from the end.\<close>

definition py_slice_to :: "'a list \<Rightarrow> int \<Rightarrow> 'a list" where
  "py_slice_to xs m =
     (if m < 0 then take (nat (int (length xs) + m)) xs else take (nat m) xs)"

text \<open>The slice \<^verbatim>\<open>xs[m:]\<close>.\<close>

definition py_slice_from :: "'a list \<Rightarrow> int \<Rightarrow> 'a list" where
  "py_slice_from xs m =
     (if m < 0 then drop (nat (int (length xs) + m)) xs else drop (nat m) xs)"

section \<open>The learner\<close>

text \<open>
  The bias-free \<^verbatim>\<open>nn.Linear\<close> head: its weight matrix has one row per class.
\<close>

record linear =
  weight :: mat
  bias :: "vec option"

text \<open>
  The fields of \<^verbatim>\<open>ICarl\<close> that the lifecycle reads and writes. \<open>task\<close>,
  \<open>task_size\<close> and \<open>new_task_index\<close> are set by the driver through the base class;
  \<open>memory_size\<close> is \<^verbatim>\<open>_k\<close>. The feature extractor is an external network: it
  maps an input to its embedding, given here by its \<open>out_dim\<close> components. The two loss
  functions are torch's \<^verbatim>\<open>binary_cross_entropy_with_logits\<close>, held in fields as in
  the source. \<open>examplars\<close> is the dictionary from class to identifiers, in insertion
  order; \<open>means\<close> is \<open>None\<close> until the first build.
\<close>

record 'x icarl =
  memory_size :: int
  n_classes :: int
  task :: int
  task_size :: int
  new_task_index :: int
  out_dim :: nat
  features_extractor :: "'x \<Rightarrow> nat \<Rightarrow> fl"
  classifier :: linear
  clf_loss :: "mat \<Rightarrow> mat \<Rightarrow> error + fl"
  distil_loss :: "mat \<Rightarrow> mat \<Rightarrow> error + fl"
  examplars :: "(int \<times> int list) list"
  means :: "mat option"
  previous_preds :: "mat option"
  previous_preds_val :: "mat option"

text \<open>
  The data loader handed to \<^verbatim>\<open>_after_task\<close>: what it yields, as (identifier, input)
  pairs in iteration order, once its dataset is restricted to a list of identifiers
  or to a range of classes. Batches are concatenated by the reader, so the model
  holds the samples in one list.
\<close>

record 'x loader =
  set_idxes :: "int list \<Rightarrow> (int \<times> 'x) list"
  set_classes_range :: "int \<Rightarrow> int \<Rightarrow> (int \<times> 'x) list"

definition embed :: "'x icarl \<Rightarrow> 'x \<Rightarrow> vec" where
  "embed s x = map (features_extractor s x) [0..<out_dim s]"

text \<open>The property \<^verbatim>\<open>_m\<close>: \<^verbatim>\<open>self._k // self._n_classes\<close>.\<close>

definition m_property :: "'x icarl \<Rightarrow> error + int" where
  "m_property s =
     (if n_classes s = 0 then Inl ZeroDivisionError
      else Inr (memory_size s div n_classes s))"

subsection \<open>Reduction\<close>

fun reduce_loop :: "'x icarl \<Rightarrow> int list \<Rightarrow> (int \<times> int list) list
    \<Rightarrow> error + (int \<times> int list) list" where
  "reduce_loop s [] ex = Inr ex"
| "reduce_loop s (class_idx # rest) ex =
     (case map_of ex class_idx of
        None \<Rightarrow> Inl KeyError
      | Some ids \<Rightarrow>
          (case m_property s of
             Inl e \<Rightarrow> Inl e
           | Inr m \<Rightarrow> reduce_loop s rest (AList.update class_idx (py_slice_to ids m) ex)))"

definition reduce_examplars :: "'x icarl \<Rightarrow> error + 'x icarl" where
  "reduce_examplars s =
     (case reduce_loop s (py_range 0 (int (length (examplars s)))) (examplars s) of
        Inl e \<Rightarrow> Inl e
      | Inr ex \<Rightarrow> Inr (s\<lparr>examplars := ex\<rparr>))"

subsection \<open>Herding\<close>

text \<open>
  \<^verbatim>\<open>_extract_features\<close>: the embeddings of the loader's samples, their mean and
  the samples' identifiers. \<^verbatim>\<open>torch.cat\<close> refuses an empty list of batches.
\<close>

definition extract_features :: "'x icarl \<Rightarrow> (int \<times> 'x) list \<Rightarrow> error + (mat \<times> vec \<times> int list)" where
  "extract_features s samples =
     (case samples of
        [] \<Rightarrow> Inl RuntimeError
      | _ # _ \<Rightarrow>
          (let features = map (\<lambda>p. embed s (snd p)) samples
           in Inr (features, mean_dim0 (out_dim s) features, map fst samples)))"

text \<open>
  The distances of iteration \<open>i\<close>: every candidate's feature is added to the running
  sum, divided by \<open>i + 1\<close> and normalised along dimension 0; the distance is the norm of
  the difference to the class mean.
\<close>

definition herding_distances :: "nat \<Rightarrow> mat \<Rightarrow> vec \<Rightarrow> vec \<Rightarrow> nat \<Rightarrow> vec" where
  "herding_distances d features class_mean examplars_mean i =
     (let tmp = normalize_dim0 d
            (map (\<lambda>row. vscale_div (vadd row examplars_mean) (Num (real (i + 1)))) features)
      in map (\<lambda>row. vnorm (vsub class_mean row)) tmp)"

text \<open>
  The inner loop over \<^verbatim>\<open>idxes_winner\<close>: the first position whose identifier is not
  yet among the exemplars.
\<close>

definition first_new :: "int list \<Rightarrow> int list \<Rightarrow> nat list \<Rightarrow> nat option" where
  "first_new idxes examplars_idxes winners =
     find (\<lambda>idx. idxes ! idx \<notin> set examplars_idxes) winners"

fun herding :: "nat \<Rightarrow> mat \<Rightarrow> vec \<Rightarrow> int list \<Rightarrow> nat list \<Rightarrow> int list \<times> vec \<Rightarrow> int list \<times> vec" where
  "herding d features class_mean idxes [] acc = acc"
| "herding d features class_mean idxes (i # rest) (examplars_idxes, examplars_mean) =
     (let distances = herding_distances d features class_mean examplars_mean i;
          idxes_winner = argsort distances
      in case first_new idxes examplars_idxes idxes_winner of
           None \<Rightarrow> herding d features class_mean idxes rest (examplars_idxes, examplars_mean)
         | Some idx \<Rightarrow>
             herding d features class_mean idxes rest
               (examplars_idxes @ [idxes ! idx], vadd examplars_mean (features ! idx)))"

text \<open>
  The body of the second loop of \<^verbatim>\<open>_build_examplars\<close> for one new class: its
  exemplars and its stored mean.
\<close>

definition build_class :: "'x icarl \<Rightarrow> 'x loader \<Rightarrow> int \<Rightarrow> error + (int list \<times> vec)" where
  "build_class s ld class_idx =
     (case extract_features s (set_classes_range ld class_idx class_idx) of
        Inl e \<Rightarrow> Inl e
      | Inr (features, class_mean, idxes) \<Rightarrow>
          (case m_property s of
             Inl e \<Rightarrow> Inl e
           | Inr m \<Rightarrow>
               (let (examplars_idxes, examplars_mean) =
                      herding (out_dim s) features (normalize_vec class_mean) idxes
                        [0..<nat (min m (int (length features)))]
                        ([], replicate (out_dim s) (Num 0))
                in Inr (examplars_idxes,
                     normalize_vec
                       (vscale_div examplars_mean (Num (real (length examplars_idxes))))))))"

subsection \<open>Rebuild\<close>

fun build_old :: "'x icarl \<Rightarrow> 'x loader \<Rightarrow> int list \<Rightarrow> mat \<Rightarrow> error + mat" where
  "build_old s ld [] ms = Inr ms"
| "build_old s ld (class_idx # rest) ms =
     (case map_of (examplars s) class_idx of
        None \<Rightarrow> Inl KeyError
      | Some ids \<Rightarrow>
          (case extract_features s (set_idxes ld ids) of
             Inl e \<Rightarrow> Inl e
           | Inr (_, examplar_mean, _) \<Rightarrow>
               build_old s ld rest (ms @ [normalize_vec examplar_mean])))"

fun build_new :: "'x icarl \<Rightarrow> 'x loader \<Rightarrow> int list \<Rightarrow> (int \<times> int list) list \<Rightarrow> mat
    \<Rightarrow> error + ((int \<times> int list) list \<times> mat)" where
  "build_new s ld [] ex ms = Inr (ex, ms)"
| "build_new s ld (class_idx # rest) ex ms =
     (case build_class s ld class_idx of
        Inl e \<Rightarrow> Inl e
      | Inr (examplars_idxes, mu) \<Rightarrow>
          build_new s ld rest (AList.update class_idx examplars_idxes ex) (ms @ [mu]))"

text \<open>\<^verbatim>\<open>torch.stack\<close> refuses an empty list of means.\<close>

definition build_examplars :: "'x icarl \<Rightarrow> 'x loader \<Rightarrow> error + 'x icarl" where
  "build_examplars s ld =
     (case build_old s ld (py_range 0 (task s * task_size s)) [] of
        Inl e \<Rightarrow> Inl e
      | Inr old_means \<Rightarrow>
          (case build_new s ld (py_range (task s * task_size s) (n_classes s))
                  (examplars s) old_means of
             Inl e \<Rightarrow> Inl e
           | Inr (ex, ms) \<Rightarrow>
               (case ms of
                  [] \<Rightarrow> Inl RuntimeError
                | _ # _ \<Rightarrow> Inr (s\<lparr>examplars := ex, means := Some ms\<rparr>))))"

definition after_task :: "'x icarl \<Rightarrow> 'x loader \<Rightarrow> error + 'x icarl" where
  "after_task s ld =
     (case reduce_examplars s of
        Inl e \<Rightarrow> Inl e
      | Inr s1 \<Rightarrow> build_examplars s1 ld)"

text \<open>The number of identifiers stored for a class; none when the class has no entry.\<close>

definition n_stored :: "'x icarl \<Rightarrow> int \<Rightarrow> nat" where
  "n_stored s c = (case map_of (examplars s) c of None \<Rightarrow> 0 | Some ids \<Rightarrow> length ids)"

subsection \<open>Nearest-class-mean classification\<close>










subsection \<open>Head growth\<close>

text \<open>
  The slice assignment \<^verbatim>\<open>new[:a] = weight\<close>: the rows written into the target
  slice, whose rows have \<open>d\<close> entries. The old matrix must have as many rows as the
  slice, or one row, which is broadcast; its rows must have \<open>d\<close> entries, or one
  entry, which is broadcast.
\<close>

definition expand_row :: "nat \<Rightarrow> vec \<Rightarrow> vec" where
  "expand_row d row = (if length row = d then row else replicate d (hd row))"

definition assign_rows :: "nat \<Rightarrow> mat \<Rightarrow> mat \<Rightarrow> error + mat" where
  "assign_rows d target w =
     (if (length w = length target \<or> length w = 1)
         \<and> ((\<forall>row\<in>set w. length row = d) \<or> (\<forall>row\<in>set w. length row = 1))
      then Inr (map (\<lambda>i. expand_row d (w ! (if length w = length target then i else 0)))
                  [0..<length target])
      else Inl RuntimeError)"

text \<open>
  \<^verbatim>\<open>_add_n_classes(n)\<close>. \<open>init r c\<close> is the value \<^verbatim>\<open>kaiming_normal_\<close> draws for
  entry \<open>(r, c)\<close> of the new weight matrix. \<^verbatim>\<open>nn.Linear\<close> refuses a negative number of
  outputs; the closing \<^verbatim>\<open>print\<close> reads \<^verbatim>\<open>_m\<close>.
\<close>

definition add_n_classes :: "'x icarl \<Rightarrow> int \<Rightarrow> (nat \<Rightarrow> nat \<Rightarrow> fl) \<Rightarrow> error + 'x icarl" where
  "add_n_classes s n init =
     (let n_classes' = n_classes s + n;
          w = weight (classifier s)
      in if n_classes' < 0 then Inl RuntimeError
         else
           (let fresh = map (\<lambda>r. map (init r) [0..<out_dim s]) [0..<nat n_classes'];
                target = py_slice_to fresh (n_classes' - n)
            in case assign_rows (out_dim s) target w of
                 Inl e \<Rightarrow> Inl e
               | Inr rows \<Rightarrow>
                   (let s' = s\<lparr>n_classes := n_classes',
                                classifier := \<lparr>weight = rows @ drop (length target) fresh,
                                               bias = None\<rparr>\<rparr>
                    in case m_property s' of
                         Inl e \<Rightarrow> Inl e
                       | Inr _ \<Rightarrow> Inr s')))"

subsection \<open>Loss composition and the training step\<close>

text \<open>\<^verbatim>\<open>xs[i]\<close>: a negative index counts from the end, and an index outside the list
  raises.\<close>

definition py_index :: "'a list \<Rightarrow> int \<Rightarrow> error + 'a" where
  "py_index xs i =
     (if 0 \<le> i \<and> i < int (length xs) then Inr (xs ! nat i)
      else if i < 0 \<and> - int (length xs) \<le> i then Inr (xs ! nat (int (length xs) + i))
      else Inl IndexError)"

text \<open>\<^verbatim>\<open>previous_preds[idxes]\<close>: the rows at the given identifiers.\<close>

fun index_rows :: "mat \<Rightarrow> int list \<Rightarrow> error + mat" where
  "index_rows pp [] = Inr []"
| "index_rows pp (i # rest) =
     (case py_index pp i of
        Inl e \<Rightarrow> Inl e
      | Inr row \<Rightarrow>
          (case index_rows pp rest of
             Inl e \<Rightarrow> Inl e
           | Inr rows \<Rightarrow> Inr (row # rows)))"

text \<open>
  \<^verbatim>\<open>utils.to_onehot\<close>: \<^verbatim>\<open>torch.zeros\<close> refuses a negative size, and
  \<^verbatim>\<open>scatter_\<close> an index outside \<open>0..n_classes-1\<close>.
\<close>

definition to_onehot :: "int list \<Rightarrow> int \<Rightarrow> error + mat" where
  "to_onehot targets n =
     (if n < 0 \<or> (\<exists>t\<in>set targets. t < 0 \<or> n \<le> t) then Inl RuntimeError
      else Inr (map (\<lambda>t. map (\<lambda>j. if int j = t then Num 1 else Num 0) [0..<nat n]) targets))"

text \<open>
  \<^verbatim>\<open>_compute_loss\<close>. The distillation loss of the first task is \<^verbatim>\<open>torch.zeros(1)\<close>;
  both losses are modelled by their single element. A missing prediction cache makes
  the subscript fail.
\<close>

definition compute_loss :: "'x icarl \<Rightarrow> mat \<Rightarrow> mat \<Rightarrow> int list \<Rightarrow> bool \<Rightarrow> error + (fl \<times> fl)" where
  "compute_loss s logits targets idxes train =
     (if task s = 0 then
        (case clf_loss s logits targets of
           Inl e \<Rightarrow> Inl e
         | Inr c \<Rightarrow> Inr (c, Num 0))
      else
        (case clf_loss s (map (\<lambda>row. py_slice_from row (new_task_index s)) logits)
                (map (\<lambda>row. py_slice_from row (new_task_index s)) targets) of
           Inl e \<Rightarrow> Inl e
         | Inr c \<Rightarrow>
             (case (if train then previous_preds s else previous_preds_val s) of
                None \<Rightarrow> Inl (if train then TypeError else AttributeError)
              | Some pp \<Rightarrow>
                  (case index_rows pp idxes of
                     Inl e \<Rightarrow> Inl e
                   | Inr rows \<Rightarrow>
                       (case distil_loss s
                               (map (\<lambda>row. py_slice_to row (new_task_index s)) logits) rows of
                          Inl e \<Rightarrow> Inl e
                        | Inr d \<Rightarrow> Inr (c, d))))))"

text \<open>\<^verbatim>\<open>utils._check_loss\<close>: not NaN, and at least zero.\<close>

definition check_loss :: "fl \<Rightarrow> bool" where
  "check_loss loss = (\<not> isnan loss \<and> fge loss 0)"

text \<open>
  What one pass through the body of the training loop does, in order. \<open>SetTrace\<close> is
  \<^verbatim>\<open>pdb.set_trace()\<close>: the run stops in the interactive debugger, and goes on with the
  statements after it once the debugger is left with \<^verbatim>\<open>continue\<close>.
\<close>

datatype event = ZeroGrad | SetTrace | Backward | OptimizerStep

text \<open>The body of the loop from the loss check to the optimizer step.\<close>

definition after_loss :: "fl \<Rightarrow> fl \<Rightarrow> event list" where
  "after_loss clf distil =
     (if \<not> check_loss clf \<or> \<not> check_loss distil then [SetTrace] else [])
     @ [Backward, OptimizerStep]"

text \<open>
  One mini-batch of \<^verbatim>\<open>_train_task\<close>: the identifiers, the logits the network gives
  for the inputs, and the targets. The result is the two losses and the events.
\<close>

definition train_batch :: "'x icarl \<Rightarrow> int list \<times> mat \<times> int list \<Rightarrow> error + (fl \<times> fl \<times> event list)" where
  "train_batch s batch =
     (case batch of (idxes, logits, targets) \<Rightarrow>
        (case to_onehot targets (n_classes s) of
           Inl e \<Rightarrow> Inl e
         | Inr onehot \<Rightarrow>
             (case compute_loss s logits onehot idxes True of
                Inl e \<Rightarrow> Inl e
              | Inr (clf, distil) \<Rightarrow> Inr (clf, distil, ZeroGrad # after_loss clf distil))))"

section \<open>Example configurations\<close>

text \<open>
  A learner at the end of its second task: two classes, a budget of two exemplars,
  class 0 with the two exemplars of the first task, and a single candidate for the
  new class 1. Inputs are identified with their identifiers, and the stand-in network
  embeds every input as the vector \<open>[1]\<close>.
\<close>

definition example_loader :: "int loader" where
  "example_loader =
     \<lparr>set_idxes = map (\<lambda>i. (i, i)),
      set_classes_range = (\<lambda>lo hi. if lo = 1 then [(8, 8)] else [])\<rparr>"

definition example_learner :: "int icarl" where
  "example_learner =
     \<lparr>memory_size = 2, n_classes = 2, task = 1, task_size = 1, new_task_index = 1,
      out_dim = 1, features_extractor = (\<lambda>x j. Num 1),
      classifier = \<lparr>weight = [[Num 1], [Num 2]], bias = None\<rparr>,
      clf_loss = (\<lambda>logits targets. Inr (vsum (map vsum logits))),
      distil_loss = (\<lambda>logits targets. Inr (vsum (map vsum logits))),
      examplars = [(0, [5, 3])], means = Some [[Num 1]],
      previous_preds = None, previous_preds_val = None\<rparr>"

text \<open>
  Two loaders that yield the same two candidates for class 1, with the same embedding,
  in opposite orders.
\<close>

definition tie_loader :: "int loader" where
  "tie_loader =
     \<lparr>set_idxes = map (\<lambda>i. (i, i)),
      set_classes_range = (\<lambda>lo hi. if lo = 1 then [(5, 5), (3, 3)] else [])\<rparr>"

definition tie_loader_rev :: "int loader" where
  "tie_loader_rev =
     \<lparr>set_idxes = map (\<lambda>i. (i, i)),
      set_classes_range = (\<lambda>lo hi. if lo = 1 then [(3, 3), (5, 5)] else [])\<rparr>"

text \<open>
  The first task of a run with a budget of 20 exemplars and two classes of 50
  candidates each: class \<open>c\<close> has the identifiers \<open>50 c, ..., 50 c + 49\<close>.
\<close>

definition scenario_loader :: "int loader" where
  "scenario_loader =
     \<lparr>set_idxes = map (\<lambda>i. (i, i)),
      set_classes_range = (\<lambda>lo hi. map (\<lambda>i. (50 * lo + int i, 50 * lo + int i)) [0..<50])\<rparr>"

definition scenario_learner :: "int icarl" where
  "scenario_learner =
     \<lparr>memory_size = 20, n_classes = 2, task = 0, task_size = 2, new_task_index = 0,
      out_dim = 2, features_extractor = (\<lambda>x j. Num (real_of_int x + real j)),
      classifier = \<lparr>weight = [[Num 1, Num 0], [Num 0, Num 1]], bias = None\<rparr>,
      clf_loss = (\<lambda>logits targets. Inr (vsum (map vsum logits))),
      distil_loss = (\<lambda>logits targets. Inr (vsum (map vsum logits))),
      examplars = [], means = None,
      previous_preds = None, previous_preds_val = None\<rparr>"

section \<open>Ranges, slices and the exemplar dictionary\<close>

lemmas tensor_defs = embed_def mean_dim0_def column_def normalize_dim0_def normalize_vec_def
  vscale_div_def vadd_def vsub_def vnorm_def fsub_def eps_def herding_distances_def
  argsort_def first_new_def

lemma set_py_range: "set (py_range lo hi) = {lo..<hi}"
proof -
  have "(\<lambda>i. lo + int i) ` {0..<nat (hi - lo)} = {lo..<hi}"
  proof (intro set_eqI iffI)
    fix x assume "x \<in> (\<lambda>i. lo + int i) ` {0..<nat (hi - lo)}"
    then show "x \<in> {lo..<hi}" by auto
  next
    fix x assume x: "x \<in> {lo..<hi}"
    then have "x = lo + int (nat (x - lo))" "nat (x - lo) \<in> {0..<nat (hi - lo)}" by auto
    then show "x \<in> (\<lambda>i. lo + int i) ` {0..<nat (hi - lo)}" by (rule image_eqI)
  qed
  then show ?thesis by (simp add: py_range_def)
qed

lemma distinct_py_range: "distinct (py_range lo hi)"
  by (simp add: py_range_def distinct_map inj_on_def)

lemma length_py_range: "length (py_range lo hi) = nat (hi - lo)"
  by (simp add: py_range_def)

lemma lookup_key: "map_of ex c = Some ids \<Longrightarrow> c \<in> fst ` set ex"
  by (metis domI dom_map_of_conv_image_fst)

lemma key_lookup: "c \<in> fst ` set ex \<Longrightarrow> \<exists>ids. map_of ex c = Some ids"
  by (metis domD dom_map_of_conv_image_fst)

text \<open>
  A dictionary with \<open>n\<close> keys that holds every key of \<open>range(n)\<close> holds no other key.
\<close>

lemma keys_are_range:
  assumes "distinct (map fst ex)" and "set (py_range 0 (int (length ex))) \<subseteq> fst ` set ex"
  shows "fst ` set ex = {0..<int (length ex)}"
proof -
  have c1: "card (fst ` set ex) = length ex"
    using assms(1) by (metis distinct_card length_map set_map)
  have c2: "card (set (py_range 0 (int (length ex)))) = length ex"
    by (simp add: distinct_card [OF distinct_py_range] length_py_range)
  have "set (py_range 0 (int (length ex))) = fst ` set ex"
    by (rule card_subset_eq) (use assms(2) c1 c2 in auto)
  then show ?thesis by (simp add: set_py_range)
qed

section \<open>Reduction\<close>

lemma reduce_loop_keys:
  "reduce_loop s cs ex = Inr ex' \<Longrightarrow> map fst ex' = map fst ex \<and> set cs \<subseteq> fst ` set ex"
proof (induction cs arbitrary: ex)
  case Nil
  then show ?case by simp
next
  case (Cons c cs)
  from Cons.prems obtain ids m where
    look: "map_of ex c = Some ids" and m: "m_property s = Inr m"
    and rest: "reduce_loop s cs (AList.update c (py_slice_to ids m) ex) = Inr ex'"
    by (auto split: option.splits sum.splits)
  from look have mem: "c \<in> fst ` set ex" by (rule lookup_key)
  then have keys: "map fst (AList.update c (py_slice_to ids m) ex) = map fst ex"
    by (simp add: update_keys)
  from Cons.IH [OF rest] keys mem show ?case
    by (metis insert_subset list.simps(15) set_map)
qed

lemma reduce_loop_lookup:
  "reduce_loop s cs ex = Inr ex' \<Longrightarrow> distinct cs \<Longrightarrow> m_property s = Inr m \<Longrightarrow>
   map_of ex' c = (if c \<in> set cs then map_option (\<lambda>ids. py_slice_to ids m) (map_of ex c)
                   else map_of ex c)"
proof (induction cs arbitrary: ex)
  case Nil
  then show ?case by simp
next
  case (Cons a cs)
  from Cons.prems obtain ids where
    look: "map_of ex a = Some ids"
    and rest: "reduce_loop s cs (AList.update a (py_slice_to ids m) ex) = Inr ex'"
    by (auto split: option.splits sum.splits)
  from Cons.prems have d: "distinct cs" and na: "a \<notin> set cs" by auto
  from Cons.IH [OF rest d Cons.prems(3)] look na show ?case
    by (auto simp: update_conv')
qed

lemma example_reduce:
  "reduce_examplars example_learner = Inr (example_learner\<lparr>examplars := [(0, [5])]\<rparr>)"
  by (simp add: reduce_examplars_def py_range_def py_slice_to_def m_property_def
      example_learner_def)

text \<open>
  C3. For a class that has an entry in the exemplar dictionary, a completed reduction
  leaves the first \<open>memory_size div n_classes\<close> entries of its previous exemplar list,
  for the value of \<open>n_classes\<close> at the time of the reduction, which \<^verbatim>\<open>_before_task\<close>
  has grown already; the list is then at most that long. The dictionary has unique
  keys, the budget is not negative and there is at least one class.
\<close>

theorem reduce_truncates:
  assumes run: "reduce_examplars s = Inr s'"
    and keys: "distinct (map fst (examplars s))"
    and mem: "0 \<le> memory_size s" and n: "0 < n_classes s"
    and old: "map_of (examplars s) c = Some ids"
  shows "map_of (examplars s') c = Some (take (nat (memory_size s div n_classes s)) ids)
       \<and> int (length (take (nat (memory_size s div n_classes s)) ids))
           \<le> memory_size s div n_classes s"
proof -
  let ?m = "memory_size s div n_classes s"
  from run obtain ex' where
    loop: "reduce_loop s (py_range 0 (int (length (examplars s)))) (examplars s) = Inr ex'"
    and s': "s' = s\<lparr>examplars := ex'\<rparr>"
    by (auto simp: reduce_examplars_def split: sum.splits)
  have m: "m_property s = Inr ?m" using n by (simp add: m_property_def)
  have m0: "0 \<le> ?m" using mem n by (simp add: pos_imp_zdiv_nonneg_iff)
  from reduce_loop_keys [OF loop]
  have sub: "set (py_range 0 (int (length (examplars s)))) \<subseteq> fst ` set (examplars s)"
    by simp
  from old have "c \<in> fst ` set (examplars s)" by (rule lookup_key)
  then have cin: "c \<in> set (py_range 0 (int (length (examplars s))))"
    using keys_are_range [OF keys sub] by (simp add: set_py_range)
  from reduce_loop_lookup [OF loop distinct_py_range m, of c] cin old
  have "map_of ex' c = Some (py_slice_to ids ?m)" by simp
  then show ?thesis using m0 s' by (simp add: py_slice_to_def)
qed

theorem reduce_truncates_witness:
  "reduce_examplars example_learner = Inr (example_learner\<lparr>examplars := [(0, [5])]\<rparr>)
   \<and> map_of (examplars (example_learner\<lparr>examplars := [(0, [5])]\<rparr>)) 0 = Some (take 1 [5, 3])"
  using reduce_truncates [OF example_reduce, of 0 "[5, 3]"] example_reduce
  by (simp add: example_learner_def)

section \<open>Herding\<close>

lemma set_argsort: "set (argsort ds) = {0..<length ds}"
  by (simp add: argsort_def)

lemma length_herding_distances: "length (herding_distances d F cm em i) = length F"
  by (simp add: herding_distances_def normalize_dim0_def Let_def)

lemma first_new_SomeD:
  "first_new idxes ex winners = Some idx \<Longrightarrow> idx \<in> set winners \<and> idxes ! idx \<notin> set ex"
  by (auto simp: first_new_def find_Some_iff)

lemma first_new_exists:
  assumes "set winners = {0..<length idxes}" and "\<not> set idxes \<subseteq> set ex"
  shows "\<exists>idx. first_new idxes ex winners = Some idx"
proof -
  from assms(2) obtain x where x: "x \<in> set idxes" "x \<notin> set ex" by auto
  then obtain j where "j < length idxes" "idxes ! j = x" by (auto simp: in_set_conv_nth)
  with x assms(1) have "\<exists>j. j \<in> set winners \<and> idxes ! j \<notin> set ex" by auto
  then have "first_new idxes ex winners \<noteq> None"
    by (simp add: first_new_def find_None_iff)
  then show ?thesis by auto
qed

lemma herding_sound:
  "herding d F cm idxes is (ex, em) = (ex', em') \<Longrightarrow> length F = length idxes \<Longrightarrow>
   set ex \<subseteq> set idxes \<Longrightarrow> distinct ex \<Longrightarrow>
   set ex' \<subseteq> set idxes \<and> distinct ex' \<and> length ex' \<le> length ex + length is"
proof (induction "is" arbitrary: ex em)
  case Nil
  then show ?case by simp
next
  case (Cons i rest)
  let ?w = "argsort (herding_distances d F cm em i)"
  show ?case
  proof (cases "first_new idxes ex ?w")
    case None
    with Cons.prems(1) have "herding d F cm idxes rest (ex, em) = (ex', em')" by simp
    from Cons.IH [OF this Cons.prems(2-4)] show ?thesis by simp
  next
    case (Some idx)
    with Cons.prems(1) have run:
      "herding d F cm idxes rest (ex @ [idxes ! idx], vadd em (F ! idx)) = (ex', em')" by simp
    from first_new_SomeD [OF Some] have "idx < length idxes" "idxes ! idx \<notin> set ex"
      by (simp_all add: set_argsort length_herding_distances Cons.prems(2))
    then have "set (ex @ [idxes ! idx]) \<subseteq> set idxes" "distinct (ex @ [idxes ! idx])"
      using Cons.prems(3,4) by auto
    from Cons.IH [OF run Cons.prems(2) this] show ?thesis by simp
  qed
qed

lemma herding_complete:
  "herding d F cm idxes is (ex, em) = (ex', em') \<Longrightarrow> length F = length idxes \<Longrightarrow>
   set ex \<subseteq> set idxes \<Longrightarrow> distinct ex \<Longrightarrow> distinct idxes \<Longrightarrow>
   length ex + length is \<le> length idxes \<Longrightarrow> length ex' = length ex + length is"
proof (induction "is" arbitrary: ex em)
  case Nil
  then show ?case by simp
next
  case (Cons i rest)
  let ?w = "argsort (herding_distances d F cm em i)"
  have "card (set ex) < card (set idxes)"
    using Cons.prems(4,5,6) by (simp add: distinct_card)
  then have "\<not> set idxes \<subseteq> set ex"
    by (metis List.finite_set card_mono not_less)
  moreover have "set ?w = {0..<length idxes}"
    by (simp add: set_argsort length_herding_distances Cons.prems(2))
  ultimately obtain idx where Some: "first_new idxes ex ?w = Some idx"
    using first_new_exists by blast
  with Cons.prems(1) have run:
    "herding d F cm idxes rest (ex @ [idxes ! idx], vadd em (F ! idx)) = (ex', em')" by simp
  from first_new_SomeD [OF Some] have "idx < length idxes" "idxes ! idx \<notin> set ex"
    by (simp_all add: set_argsort length_herding_distances Cons.prems(2))
  then have "set (ex @ [idxes ! idx]) \<subseteq> set idxes" "distinct (ex @ [idxes ! idx])"
    using Cons.prems(3,4) by auto
  from Cons.IH [OF run Cons.prems(2) this Cons.prems(5)] Cons.prems(6) show ?case by simp
qed

lemma build_class_Inr:
  assumes "build_class s ld c = Inr (ex, mu)"
  shows "\<exists>F cm idxes em.
           extract_features s (set_classes_range ld c c) = Inr (F, cm, idxes)
         \<and> n_classes s \<noteq> 0
         \<and> herding (out_dim s) F (normalize_vec cm) idxes
              [0..<nat (min (memory_size s div n_classes s) (int (length F)))]
              ([], replicate (out_dim s) (Num 0)) = (ex, em)
         \<and> mu = normalize_vec (vscale_div em (Num (real (length ex))))"
  using assms
  by (auto simp: build_class_def m_property_def Let_def split: sum.splits prod.splits if_splits)

lemma extract_features_Inr:
  "extract_features s samples = Inr (F, cm, idxes) \<Longrightarrow>
   samples \<noteq> [] \<and> F = map (\<lambda>p. embed s (snd p)) samples \<and> idxes = map fst samples
   \<and> cm = mean_dim0 (out_dim s) F"
  by (auto simp: extract_features_def Let_def split: list.splits)

lemma build_class_total:
  assumes "set_classes_range ld c c \<noteq> []" and "n_classes s \<noteq> 0"
  shows "\<exists>ex mu. build_class s ld c = Inr (ex, mu)"
  using assms
  by (auto simp: build_class_def extract_features_def m_property_def Let_def
      split: list.splits prod.splits)

lemma build_class_bound:
  assumes "build_class s ld c = Inr (ex, mu)"
  shows "length ex \<le> nat (memory_size s div n_classes s)"
proof -
  from build_class_Inr [OF assms] obtain F cm idxes em where
    ef: "extract_features s (set_classes_range ld c c) = Inr (F, cm, idxes)"
    and h: "herding (out_dim s) F (normalize_vec cm) idxes
              [0..<nat (min (memory_size s div n_classes s) (int (length F)))]
              ([], replicate (out_dim s) (Num 0)) = (ex, em)"
    by blast
  from extract_features_Inr [OF ef] have len: "length F = length idxes" by simp
  from herding_sound [OF h len]
  have "length ex \<le> nat (min (memory_size s div n_classes s) (int (length F)))" by simp
  then show ?thesis by linarith
qed

text \<open>
  C9. A new class whose loader yields a non-empty pool of candidates with pairwise
  distinct identifiers is built without error, and its exemplar list has exactly
  \<open>min(m, n)\<close> entries for the quota \<open>m = memory_size div n_classes\<close> and the pool
  size \<open>n\<close> (none for a negative quota), has no duplicates, and holds identifiers of
  the pool only.
\<close>

theorem herding_selects:
  assumes pool: "set_classes_range ld c c \<noteq> []"
    and ids: "distinct (map fst (set_classes_range ld c c))"
    and n: "n_classes s \<noteq> 0"
  shows "\<exists>ex mu. build_class s ld c = Inr (ex, mu)
       \<and> length ex = min (nat (memory_size s div n_classes s)) (length (set_classes_range ld c c))
       \<and> distinct ex
       \<and> set ex \<subseteq> fst ` set (set_classes_range ld c c)"
proof -
  from build_class_total [OF pool n] obtain ex mu where b: "build_class s ld c = Inr (ex, mu)"
    by blast
  from build_class_Inr [OF b] obtain F cm idxes em where
    ef: "extract_features s (set_classes_range ld c c) = Inr (F, cm, idxes)"
    and h: "herding (out_dim s) F (normalize_vec cm) idxes
              [0..<nat (min (memory_size s div n_classes s) (int (length F)))]
              ([], replicate (out_dim s) (Num 0)) = (ex, em)"
    by blast
  from extract_features_Inr [OF ef] have
    F: "length F = length (set_classes_range ld c c)"
    and idx: "idxes = map fst (set_classes_range ld c c)" by simp_all
  have len: "length F = length idxes" using F idx by simp
  from herding_sound [OF h len] have "set ex \<subseteq> set idxes" "distinct ex" by simp_all
  moreover from herding_complete [OF h len] ids idx F
  have "length ex = nat (min (memory_size s div n_classes s) (int (length F)))" by simp
  ultimately show ?thesis using b idx F by auto
qed

text \<open>
  The scenario of the specification: a budget of 20, two classes, 50 candidates:
  ten exemplars.
\<close>

theorem herding_selects_witness:
  "\<exists>ex mu. build_class scenario_learner scenario_loader 0 = Inr (ex, mu)
     \<and> length ex = 10 \<and> distinct ex \<and> set ex \<subseteq> int ` {0..<50}"
proof -
  have pool: "set_classes_range scenario_loader 0 0 = map (\<lambda>i. (int i, int i)) [0..<50]"
    by (simp add: scenario_loader_def)
  have "set_classes_range scenario_loader 0 0 \<noteq> []" by (simp add: pool)
  moreover have "distinct (map fst (set_classes_range scenario_loader 0 0))"
    by (simp add: pool comp_def distinct_map)
  moreover have "n_classes scenario_learner \<noteq> 0" by (simp add: scenario_learner_def)
  ultimately obtain ex mu where
    r: "build_class scenario_learner scenario_loader 0 = Inr (ex, mu)"
       "length ex = min (nat (memory_size scenario_learner div n_classes scenario_learner))
          (length (set_classes_range scenario_loader 0 0))"
       "distinct ex" "set ex \<subseteq> fst ` set (set_classes_range scenario_loader 0 0)"
    using herding_selects [of scenario_loader 0 scenario_learner] by blast
  from r(2) have "length ex = 10" by (simp add: pool scenario_learner_def)
  moreover from r(4) have "set ex \<subseteq> int ` {0..<50}" by (simp add: pool image_image)
  ultimately show ?thesis using r(1,3) by blast
qed

subsection \<open>The order of selection\<close>

text \<open>
  The first element of a list with a property, in a list sorted by a key, has the
  least key among the elements with the property. Nothing is said about elements of
  equal key.
\<close>

lemma first_in_order:
  fixes f :: "nat \<Rightarrow> 'k::linorder"
  assumes "find P w = Some j" and "sorted (map f w)" and "p \<in> set w" and "P p"
  shows "f j \<le> f p"
  using assms
proof (induction w)
  case Nil
  then show ?case by simp
next
  case (Cons a w)
  show ?case
  proof (cases "P a")
    case True
    with Cons.prems(1) have "a = j" by simp
    with Cons.prems(2,3) show ?thesis by auto
  next
    case False
    with Cons.prems have "find P w = Some j" "sorted (map f w)" "p \<in> set w" by auto
    with Cons.IH Cons.prems(4) show ?thesis by blast
  qed
qed

lemma sorted_argsort: "sorted (map (\<lambda>i. sort_rank (ds ! i)) (argsort ds))"
  by (simp add: argsort_def sorted_sort_key)

lemma build_class_frame:
  assumes "memory_size s = memory_size s'" and "n_classes s = n_classes s'"
    and "out_dim s = out_dim s'" and "features_extractor s = features_extractor s'"
    and "set_classes_range ld c c = set_classes_range ld' c c"
  shows "build_class s ld c = build_class s' ld' c"
proof -
  have e: "embed s = embed s'" by (simp add: embed_def fun_eq_iff assms)
  have m: "m_property s = m_property s'" by (simp add: m_property_def assms)
  show ?thesis
    unfolding build_class_def extract_features_def e m assms(3) assms(5) by (rule refl)
qed

lemma herding_step:
  assumes len: "length F = length idxes" and avail: "\<not> set idxes \<subseteq> set ex"
  shows "\<exists>j<length idxes.
           herding d F cm idxes [i] (ex, em) = (ex @ [idxes ! j], vadd em (F ! j))
         \<and> idxes ! j \<notin> set ex
         \<and> (\<forall>p<length idxes. idxes ! p \<notin> set ex \<longrightarrow>
              sort_rank (herding_distances d F cm em i ! j)
                \<le> sort_rank (herding_distances d F cm em i ! p))"
proof -
  let ?D = "herding_distances d F cm em i"
  have lD: "length ?D = length idxes" by (simp add: length_herding_distances len)
  have sw: "set (argsort ?D) = {0..<length idxes}" by (simp add: set_argsort lD)
  from first_new_exists [OF sw avail] obtain j where
    j: "first_new idxes ex (argsort ?D) = Some j" by blast
  from first_new_SomeD [OF j] have jl: "j < length idxes" and jn: "idxes ! j \<notin> set ex"
    by (simp_all add: set_argsort lD)
  from j have step: "herding d F cm idxes [i] (ex, em) = (ex @ [idxes ! j], vadd em (F ! j))"
    by simp
  from j have found: "find (\<lambda>idx. idxes ! idx \<notin> set ex) (argsort ?D) = Some j"
    by (simp add: first_new_def)
  have "sort_rank (?D ! j) \<le> sort_rank (?D ! p)"
    if "p < length idxes" "idxes ! p \<notin> set ex" for p
  proof -
    from that(1) sw have "p \<in> set (argsort ?D)" by simp
    from first_in_order [OF found sorted_argsort this that(2)] show ?thesis .
  qed
  with jl jn step show ?thesis by blast
qed

text \<open>
  The choice never looks at the identifiers' values: renaming them renames the
  exemplars and changes nothing else.
\<close>

lemma first_new_rename:
  assumes "inj f" and "set winners \<subseteq> {0..<length idxes}"
  shows "first_new (map f idxes) (map f ex) winners = first_new idxes ex winners"
  unfolding first_new_def
proof (rule find_cong [OF refl])
  fix x assume "x \<in> set winners"
  with assms(2) have "x < length idxes" by auto
  then have "map f idxes ! x = f (idxes ! x)" by simp
  then show "(map f idxes ! x \<notin> set (map f ex)) = (idxes ! x \<notin> set ex)"
    using assms(1) by (simp add: inj_image_mem_iff)
qed

lemma herding_rename:
  assumes "inj f" and "length F = length idxes"
  shows "herding d F cm (map f idxes) is (map f ex, em)
       = map_prod (map f) id (herding d F cm idxes is (ex, em))"
proof (induction "is" arbitrary: ex em)
  case Nil
  then show ?case by simp
next
  case (Cons i rest)
  let ?w = "argsort (herding_distances d F cm em i)"
  have sw: "set ?w \<subseteq> {0..<length idxes}"
    by (simp add: set_argsort length_herding_distances assms(2))
  note same = first_new_rename [OF assms(1) sw, of ex]
  show ?case
  proof (cases "first_new idxes ex ?w")
    case None
    with same Cons.IH [of ex em] show ?thesis by simp
  next
    case (Some idx)
    from first_new_SomeD [OF Some] sw have "idx < length idxes" by auto
    then have "map f ex @ [map f idxes ! idx] = map f (ex @ [idxes ! idx])" by simp
    with same Some Cons.IH [of "ex @ [idxes ! idx]" "vadd em (F ! idx)"] show ?thesis
      by simp
  qed
qed

lemma tie_build_class:
  "build_class example_learner tie_loader 1 = Inr ([5], [Num 1])"
  by (simp add: build_class_def extract_features_def m_property_def example_learner_def
      tie_loader_def tensor_defs)

lemma tie_build_class_rev:
  "build_class example_learner tie_loader_rev 1 = Inr ([3], [Num 1])"
  by (simp add: build_class_def extract_features_def m_property_def example_learner_def
      tie_loader_rev_def tensor_defs)

lemma tie_distances:
  "herding_distances 1 [[Num 1], [Num 1]] [Num 1] [Num 0] 0 ! 0
 = herding_distances 1 [[Num 1], [Num 1]] [Num 1] [Num 0] 0 ! 1"
  by (simp add: tensor_defs)

text \<open>
  C4, as the code has it. The selection for a class is a function of the budget, the
  number of classes, the feature extractor and the candidates in the order in which
  the loader yields them: two learners that agree on the former, with loaders that
  yield the same candidates, build the same exemplars and mean, whatever the rest of
  their state. In one iteration, as long as a candidate identifier is left, the
  candidate taken is one not yet selected, at the least distance among those. The
  values of the identifiers never enter the choice: renaming the identifiers renames
  the selected sequence and changes nothing else. So which of several candidates at
  the same distance is taken rests on the order in which \<^verbatim>\<open>argsort\<close> lists their
  positions, not on which has the lowest identifier.
\<close>

theorem herding_choice:
  "(memory_size s = memory_size s' \<and> n_classes s = n_classes s'
      \<and> out_dim s = out_dim s' \<and> features_extractor s = features_extractor s'
      \<and> set_classes_range ld c c = set_classes_range ld' c c
      \<longrightarrow> build_class s ld c = build_class s' ld' c)
 \<and> (length F = length idxes \<and> \<not> set idxes \<subseteq> set ex \<longrightarrow>
      (\<exists>j<length idxes.
           herding d F cm idxes [i] (ex, em) = (ex @ [idxes ! j], vadd em (F ! j))
         \<and> idxes ! j \<notin> set ex
         \<and> (\<forall>p<length idxes. idxes ! p \<notin> set ex \<longrightarrow>
              sort_rank (herding_distances d F cm em i ! j)
                \<le> sort_rank (herding_distances d F cm em i ! p))))
 \<and> (inj f \<and> length F = length idxes \<longrightarrow>
      herding d F cm (map f idxes) iters (map f ex, em)
        = map_prod (map f) id (herding d F cm idxes iters (ex, em)))"
  using build_class_frame [of s s' ld c ld'] herding_step [of F idxes ex d cm i em]
    herding_rename [of f F idxes d cm iters ex em]
  by blast

theorem herding_choice_witness:
  "build_class example_learner tie_loader 1
     = build_class (example_learner\<lparr>examplars := [], means := None\<rparr>) tie_loader 1
 \<and> (\<exists>j<2. herding 1 [[Num 1], [Num 1]] [Num 1] [5, 3] [0] ([], [Num 0])
              = ([[5, 3] ! j], vadd [Num 0] ([[Num 1], [Num 1]] ! j)))
 \<and> herding 1 [[Num 1], [Num 1]] [Num 1] (map (\<lambda>x. x + 10) [5, 3]) [0]
       (map (\<lambda>x. x + 10) [], [Num 0])
     = map_prod (map (\<lambda>x. x + 10)) id
         (herding 1 [[Num 1], [Num 1]] [Num 1] [5, 3] [0] ([], [Num 0]))"
proof -
  note h = herding_choice [where s = example_learner
      and s' = "example_learner\<lparr>examplars := [], means := None\<rparr>"
      and ld = tie_loader and c = 1 and ld' = tie_loader
      and F = "[[Num 1], [Num 1]]" and idxes = "[5, 3]" and ex = "[]" and d = 1
      and cm = "[Num 1]" and i = 0 and em = "[Num 0]"
      and f = "\<lambda>x. x + 10" and iters = "[0]"]
  have pre1: "memory_size example_learner
        = memory_size (example_learner\<lparr>examplars := [], means := None\<rparr>)
      \<and> n_classes example_learner = n_classes (example_learner\<lparr>examplars := [], means := None\<rparr>)
      \<and> out_dim example_learner = out_dim (example_learner\<lparr>examplars := [], means := None\<rparr>)
      \<and> features_extractor example_learner
          = features_extractor (example_learner\<lparr>examplars := [], means := None\<rparr>)
      \<and> set_classes_range tie_loader 1 1 = set_classes_range tie_loader 1 1"
    by simp
  from h [THEN conjunct1, THEN mp, OF pre1]
  have a: "build_class example_learner tie_loader 1
     = build_class (example_learner\<lparr>examplars := [], means := None\<rparr>) tie_loader 1" .
  have pre2: "length [[Num 1], [Num 1]] = length [5, 3 :: int]
      \<and> \<not> set [5, 3 :: int] \<subseteq> set []"
    by simp
  from h [THEN conjunct2, THEN conjunct1, THEN mp, OF pre2] obtain j where
    j: "j < length [5, 3 :: int]"
      "herding 1 [[Num 1], [Num 1]] [Num 1] [5, 3] [0] ([], [Num 0])
         = ([] @ [[5, 3] ! j], vadd [Num 0] ([[Num 1], [Num 1]] ! j))"
    by blast
  from j(1) have j2: "j < 2" by simp
  from j(2) have b: "herding 1 [[Num 1], [Num 1]] [Num 1] [5, 3] [0] ([], [Num 0])
         = ([[5, 3] ! j], vadd [Num 0] ([[Num 1], [Num 1]] ! j))"
    by (simp only: append_Nil)
  have pre3: "inj (\<lambda>x :: int. x + 10) \<and> length [[Num 1], [Num 1]] = length [5, 3 :: int]"
    by (simp add: inj_def)
  from h [THEN conjunct2, THEN conjunct2, THEN mp, OF pre3]
  have c: "herding 1 [[Num 1], [Num 1]] [Num 1] (map (\<lambda>x. x + 10) [5, 3]) [0]
       (map (\<lambda>x. x + 10) [], [Num 0])
     = map_prod (map (\<lambda>x. x + 10)) id
         (herding 1 [[Num 1], [Num 1]] [Num 1] [5, 3] [0] ([], [Num 0]))" .
  from a j2 b c show ?thesis by blast
qed

text \<open>
  Two candidates with the same embedding, hence at the same distance: the candidate
  taken is 5 when the loader yields 5 before 3, and 3 when it yields 3 before 5.
\<close>

theorem herding_tie_counterexample:
  "build_class example_learner tie_loader 1 = Inr ([5], [Num 1])
 \<and> build_class example_learner tie_loader_rev 1 = Inr ([3], [Num 1])
 \<and> herding_distances 1 [[Num 1], [Num 1]] [Num 1] [Num 0] 0 ! 0
     = herding_distances 1 [[Num 1], [Num 1]] [Num 1] [Num 0] 0 ! 1
 \<and> (3 :: int) < 5"
  using tie_build_class tie_build_class_rev tie_distances by simp

subsection \<open>A quota of zero\<close>

lemma normalize_vec_NaN: "normalize_vec (replicate d NaN) = replicate d NaN"
  by (simp add: normalize_vec_def vscale_div_def)

lemma zero_over_zero: "vscale_div (replicate d (Num 0)) (Num 0) = replicate d NaN"
  by (simp add: vscale_div_def)

lemma build_class_no_quota:
  assumes pool: "set_classes_range ld c c \<noteq> []"
    and n: "n_classes s \<noteq> 0" and m: "memory_size s div n_classes s \<le> 0"
  shows "build_class s ld c = Inr ([], replicate (out_dim s) NaN)"
proof -
  from pool obtain p ps where p: "set_classes_range ld c c = p # ps"
    by (cases "set_classes_range ld c c") auto
  from m have "nat (min (memory_size s div n_classes s) (1 + int (length ps))) = 0" by simp
  then show ?thesis
    using n by (simp add: build_class_def extract_features_def p m_property_def Let_def
        zero_over_zero normalize_vec_NaN)
qed

text \<open>
  C10. With at least one class and a feature dimension of at least one: when the quota
  \<open>memory_size div n_classes\<close> is 0 and the pool of a new class is not empty, the class
  is built without error, with no exemplar and a stored mean that is NaN in every
  component (the zero vector divided by zero). Conversely, a class built with a mean
  of finite components has \<open>n_classes \<le> memory_size\<close> and a non-empty pool.
\<close>

theorem zero_quota_mean:
  assumes n: "0 < n_classes s" and d: "0 < out_dim s"
  shows "(set_classes_range ld c c \<noteq> [] \<and> memory_size s div n_classes s = 0 \<longrightarrow>
            build_class s ld c = Inr ([], replicate (out_dim s) NaN))
       \<and> (\<forall>ex mu. build_class s ld c = Inr (ex, mu) \<and> (\<forall>x\<in>set mu. isfinite x) \<longrightarrow>
            n_classes s \<le> memory_size s \<and> set_classes_range ld c c \<noteq> [])"
proof (rule conjI)
  show "set_classes_range ld c c \<noteq> [] \<and> memory_size s div n_classes s = 0 \<longrightarrow>
            build_class s ld c = Inr ([], replicate (out_dim s) NaN)"
    using n build_class_no_quota [of ld c s] by simp
next
  show "\<forall>ex mu. build_class s ld c = Inr (ex, mu) \<and> (\<forall>x\<in>set mu. isfinite x) \<longrightarrow>
            n_classes s \<le> memory_size s \<and> set_classes_range ld c c \<noteq> []"
  proof (intro allI impI)
    fix ex mu
    assume a: "build_class s ld c = Inr (ex, mu) \<and> (\<forall>x\<in>set mu. isfinite x)"
    then have pool: "set_classes_range ld c c \<noteq> []"
      by (auto simp: build_class_def extract_features_def split: list.splits)
    have "n_classes s \<le> memory_size s"
    proof (rule ccontr)
      assume "\<not> n_classes s \<le> memory_size s"
      then have lt: "memory_size s < n_classes s" by simp
      have "memory_size s div n_classes s \<le> 0"
      proof (cases "0 \<le> memory_size s")
        case True
        with lt show ?thesis by (simp add: div_pos_pos_trivial)
      next
        case False
        with n div_neg_pos_less0 [of "memory_size s" "n_classes s"] show ?thesis by simp
      qed
      from build_class_no_quota [OF pool _ this] n a have "mu = replicate (out_dim s) NaN" by simp
      with a d show False by (cases "out_dim s") auto
    qed
    with pool show "n_classes s \<le> memory_size s \<and> set_classes_range ld c c \<noteq> []" by simp
  qed
qed

theorem zero_quota_mean_witness:
  "build_class (example_learner\<lparr>memory_size := 1\<rparr>) example_loader 1 = Inr ([], [NaN])"
  using zero_quota_mean [of "example_learner\<lparr>memory_size := 1\<rparr>" example_loader 1]
  by (simp add: example_learner_def example_loader_def)

section \<open>Rebuild and the memory budget\<close>

lemma build_old_keys:
  "build_old s ld cs ms = Inr ms' \<Longrightarrow> set cs \<subseteq> fst ` set (examplars s)"
proof (induction cs arbitrary: ms)
  case Nil
  then show ?case by simp
next
  case (Cons c cs)
  from Cons.prems obtain ids mu where
    look: "map_of (examplars s) c = Some ids"
    and rest: "build_old s ld cs (ms @ [normalize_vec mu]) = Inr ms'"
    by (auto split: option.splits sum.splits prod.splits)
  from look have "c \<in> fst ` set (examplars s)" by (rule lookup_key)
  with Cons.IH [OF rest] show ?case by simp
qed

lemma build_new_lookup:
  "build_new s ld cs ex ms = Inr (ex', ms') \<Longrightarrow>
   (if c \<in> set cs
    then \<exists>ids mu. build_class s ld c = Inr (ids, mu) \<and> map_of ex' c = Some ids
    else map_of ex' c = map_of ex c)"
proof (induction cs arbitrary: ex ms)
  case Nil
  then show ?case by simp
next
  case (Cons a cs)
  from Cons.prems obtain ids mu where
    b: "build_class s ld a = Inr (ids, mu)"
    and rest: "build_new s ld cs (AList.update a ids ex) (ms @ [mu]) = Inr (ex', ms')"
    by (auto split: sum.splits prod.splits)
  from Cons.IH [OF rest] b show ?case
    by (auto simp: update_conv' split: if_splits)
qed

text \<open>
  After a completed \<open>after_task\<close>, every class below \<open>n_classes\<close> has an entry of at
  most the quota's length: the new classes by herding, the others by the reduction.
\<close>

lemma stored_after_task:
  assumes run: "after_task s ld = Inr s'"
    and keys: "distinct (map fst (examplars s))"
    and mem: "0 \<le> memory_size s"
    and c: "0 \<le> c" "c < n_classes s"
  shows "\<exists>ids. map_of (examplars s') c = Some ids
           \<and> length ids \<le> nat (memory_size s div n_classes s)"
proof -
  let ?m = "memory_size s div n_classes s"
  let ?lo = "task s * task_size s"
  from c have n: "0 < n_classes s" by simp
  have m: "m_property s = Inr ?m" using n by (simp add: m_property_def)
  have m0: "0 \<le> ?m" using mem n by (simp add: pos_imp_zdiv_nonneg_iff)
  from run obtain s1 where r: "reduce_examplars s = Inr s1" and b: "build_examplars s1 ld = Inr s'"
    by (auto simp: after_task_def split: sum.splits)
  from r obtain ex1 where
    loop: "reduce_loop s (py_range 0 (int (length (examplars s)))) (examplars s) = Inr ex1"
    and s1: "s1 = s\<lparr>examplars := ex1\<rparr>"
    by (auto simp: reduce_examplars_def split: sum.splits)
  from b obtain old ex' ms where
    bo: "build_old s1 ld (py_range 0 ?lo) [] = Inr old"
    and bn: "build_new s1 ld (py_range ?lo (n_classes s)) ex1 old = Inr (ex', ms)"
    and s': "examplars s' = ex'"
    using s1 by (auto simp: build_examplars_def split: sum.splits list.splits)
  show ?thesis
  proof (cases "c \<in> set (py_range ?lo (n_classes s))")
    case True
    with build_new_lookup [OF bn, of c] obtain ids mu where
      ids: "build_class s1 ld c = Inr (ids, mu)" "map_of ex' c = Some ids" by auto
    from build_class_bound [OF ids(1)] s1 have "length ids \<le> nat ?m" by simp
    with ids(2) s' show ?thesis by simp
  next
    case False
    with build_new_lookup [OF bn, of c] have same: "map_of ex' c = map_of ex1 c" by simp
    from False c have "c \<in> set (py_range 0 ?lo)" by (auto simp: set_py_range)
    with build_old_keys [OF bo] s1 have "c \<in> fst ` set ex1" by auto
    with reduce_loop_keys [OF loop] have ck: "c \<in> fst ` set (examplars s)"
      by (metis set_map)
    from reduce_loop_keys [OF loop]
    have "set (py_range 0 (int (length (examplars s)))) \<subseteq> fst ` set (examplars s)" by simp
    from keys_are_range [OF keys this] ck
    have cin: "c \<in> set (py_range 0 (int (length (examplars s))))" by (simp add: set_py_range)
    from key_lookup [OF ck] obtain ids where ids: "map_of (examplars s) c = Some ids" by blast
    from reduce_loop_lookup [OF loop distinct_py_range m, of c] cin ids
    have "map_of ex1 c = Some (py_slice_to ids ?m)" by simp
    with same s' m0 show ?thesis by (simp add: py_slice_to_def)
  qed
qed

lemma after_task_fields:
  "after_task s ld = Inr s' \<Longrightarrow> n_classes s' = n_classes s \<and> memory_size s' = memory_size s"
  by (auto simp: after_task_def reduce_examplars_def build_examplars_def
      split: sum.splits list.splits)

lemma sum_list_bounded_nat:
  fixes f :: "'a \<Rightarrow> nat"
  shows "(\<And>x. x \<in> set xs \<Longrightarrow> f x \<le> b) \<Longrightarrow> sum_list (map f xs) \<le> length xs * b"
  by (induction xs) (auto intro: add_mono)

lemma example_build_class:
  "build_class (example_learner\<lparr>examplars := [(0, [5])]\<rparr>) example_loader 1 = Inr ([8], [Num 1])"
  by (simp add: build_class_def extract_features_def m_property_def example_learner_def
      example_loader_def tensor_defs)

lemma example_after_task:
  "after_task example_learner example_loader
     = Inr (example_learner\<lparr>examplars := [(0, [5]), (1, [8])], means := Some [[Num 1], [Num 1]]\<rparr>)"
proof -
  let ?s1 = "example_learner\<lparr>examplars := [(0, [5])]\<rparr>"
  have fields: "task ?s1 * task_size ?s1 = 1" "n_classes ?s1 = 2" "examplars ?s1 = [(0, [5])]"
    by (simp_all add: example_learner_def)
  have old: "build_old ?s1 example_loader (py_range 0 1) [] = Inr [[Num 1]]"
    by (simp add: py_range_def extract_features_def example_learner_def example_loader_def
        tensor_defs)
  have new: "build_new ?s1 example_loader (py_range 1 2) [(0, [5])] [[Num 1]]
      = Inr ([(0, [5]), (1, [8])], [[Num 1], [Num 1]])"
    using example_build_class by (simp add: py_range_def)
  have "build_examplars ?s1 example_loader
      = Inr (?s1\<lparr>examplars := [(0, [5]), (1, [8])], means := Some [[Num 1], [Num 1]]\<rparr>)"
    by (simp only: build_examplars_def fields old new sum.case prod.case list.case)
  then show ?thesis by (simp add: after_task_def example_reduce)
qed

text \<open>
  C1. After a completed \<open>after_task\<close> (reduction, then rebuild), for a learner whose
  exemplar dictionary has unique keys and whose budget is not negative, the numbers
  of stored exemplar identifiers of the classes \<open>0, ..., n_classes - 1\<close> add up to at
  most \<open>memory_size\<close>, and each of these classes has an entry.
\<close>

theorem memory_budget:
  assumes run: "after_task s ld = Inr s'"
    and keys: "distinct (map fst (examplars s))"
    and mem: "0 \<le> memory_size s"
  shows "int (\<Sum>c\<leftarrow>py_range 0 (n_classes s'). n_stored s' c) \<le> memory_size s'
       \<and> (\<forall>c\<in>set (py_range 0 (n_classes s')). \<exists>ids. map_of (examplars s') c = Some ids)"
proof -
  let ?n = "n_classes s" and ?k = "memory_size s"
  from after_task_fields [OF run] have eq: "n_classes s' = ?n" "memory_size s' = ?k" by simp_all
  have each: "\<exists>ids. map_of (examplars s') c = Some ids \<and> length ids \<le> nat (?k div ?n)"
    if "c \<in> set (py_range 0 ?n)" for c
    using that stored_after_task [OF run keys mem, of c] by (simp add: set_py_range)
  have total: "int (\<Sum>c\<leftarrow>py_range 0 ?n. n_stored s' c) \<le> ?k"
  proof (cases "0 < ?n")
    case False
    then have "py_range 0 ?n = []" by (simp add: py_range_def)
    with mem show ?thesis by simp
  next
    case True
    have "(\<Sum>c\<leftarrow>py_range 0 ?n. n_stored s' c) \<le> length (py_range 0 ?n) * nat (?k div ?n)"
    proof (rule sum_list_bounded_nat)
      fix c assume "c \<in> set (py_range 0 ?n)"
      from each [OF this] show "n_stored s' c \<le> nat (?k div ?n)"
        by (auto simp: n_stored_def)
    qed
    then have "(\<Sum>c\<leftarrow>py_range 0 ?n. n_stored s' c) \<le> nat ?n * nat (?k div ?n)"
      by (simp add: length_py_range)
    then have "int (\<Sum>c\<leftarrow>py_range 0 ?n. n_stored s' c) \<le> int (nat ?n * nat (?k div ?n))"
      by (rule iffD2 [OF of_nat_le_iff])
    also have "\<dots> = ?n * (?k div ?n)"
    proof -
      have "0 \<le> ?k div ?n" using True mem by (simp add: pos_imp_zdiv_nonneg_iff)
      then show ?thesis using True by simp
    qed
    also have "\<dots> \<le> ?k"
    proof -
      have "?n * (?k div ?n) + ?k mod ?n = ?k" by (rule mult_div_mod_eq)
      moreover have "0 \<le> ?k mod ?n" using True by simp
      ultimately show ?thesis by linarith
    qed
    finally show ?thesis .
  qed
  from each have "\<forall>c\<in>set (py_range 0 ?n). \<exists>ids. map_of (examplars s') c = Some ids"
    by blast
  with total eq show ?thesis by simp
qed

theorem memory_budget_witness:
  "after_task example_learner example_loader
     = Inr (example_learner\<lparr>examplars := [(0, [5]), (1, [8])], means := Some [[Num 1], [Num 1]]\<rparr>)
   \<and> int (\<Sum>c\<leftarrow>py_range 0 2. n_stored
        (example_learner\<lparr>examplars := [(0, [5]), (1, [8])], means := Some [[Num 1], [Num 1]]\<rparr>) c)
       \<le> 2"
proof -
  have pre: "distinct (map fst (examplars example_learner))" "0 \<le> memory_size example_learner"
    by (simp_all add: example_learner_def)
  from memory_budget [OF example_after_task pre, THEN conjunct1] example_after_task
  show ?thesis by (simp add: example_learner_def)
qed

section \<open>Nearest-class-mean classification\<close>

















section \<open>Head growth\<close>

text \<open>
  C5. For a head with one weight row per class, each of the feature extractor's
  dimension, at least one class, and \<open>n \<ge> 0\<close> new classes: \<open>add_n_classes\<close> succeeds; the new head has no bias and
  \<open>n_classes + n\<close> rows, its first \<open>n_classes\<close> rows are the rows of the previous
  head, unchanged, and its last \<open>n\<close> rows are the freshly initialised ones.
\<close>

theorem head_growth:
  assumes rows: "int (length (weight (classifier s))) = n_classes s"
    and cols: "\<forall>row\<in>set (weight (classifier s)). length row = out_dim s"
    and pos: "0 < n_classes s" and n: "0 \<le> n"
  shows "\<exists>s'. add_n_classes s n init = Inr s'
     \<and> n_classes s' = n_classes s + n
     \<and> bias (classifier s') = None
     \<and> length (weight (classifier s')) = nat (n_classes s + n)
     \<and> take (nat (n_classes s)) (weight (classifier s')) = weight (classifier s)
     \<and> drop (nat (n_classes s)) (weight (classifier s'))
         = map (\<lambda>r. map (init r) [0..<out_dim s]) [nat (n_classes s)..<nat (n_classes s + n)]"
proof -
  let ?old = "nat (n_classes s)" and ?new = "nat (n_classes s + n)"
  let ?fresh = "map (\<lambda>r. map (init r) [0..<out_dim s]) [0..<?new]"
  let ?w = "weight (classifier s)"
  have lw: "length ?w = ?old" using rows by simp
  have le: "?old \<le> ?new" using n pos by simp
  have target: "py_slice_to ?fresh (n_classes s + n - n) = take ?old ?fresh"
    using pos by (simp add: py_slice_to_def)
  have lt: "length (take ?old ?fresh) = ?old" using le by simp
  have same: "map (\<lambda>i. expand_row (out_dim s) (?w ! i)) [0..<length ?w] = ?w"
    by (rule nth_equalityI) (use cols in \<open>auto simp: expand_row_def\<close>)
  have assign: "assign_rows (out_dim s) (take ?old ?fresh) ?w = Inr ?w"
    using lw lt cols same by (simp add: assign_rows_def)
  let ?s' = "s\<lparr>n_classes := n_classes s + n,
               classifier := \<lparr>weight = ?w @ drop ?old ?fresh, bias = None\<rparr>\<rparr>"
  have m: "m_property ?s' = Inr (memory_size s div (n_classes s + n))"
    using pos n by (simp add: m_property_def)
  have run: "add_n_classes s n init = Inr ?s'"
    unfolding add_n_classes_def Let_def target
    using pos n assign m lt by simp
  have dr: "drop ?old ?fresh = map (\<lambda>r. map (init r) [0..<out_dim s]) [?old..<?new]"
    by (simp add: drop_map)
  show ?thesis
    by (rule exI [of _ ?s']) (use run lw le dr in simp)
qed

theorem head_growth_witness:
  "\<exists>s'. add_n_classes example_learner 1 (\<lambda>r c. Num 0) = Inr s'
     \<and> n_classes s' = 3 \<and> weight (classifier s') = [[Num 1], [Num 2], [Num 0]]
     \<and> bias (classifier s') = None"
proof -
  from head_growth [of example_learner 1 "\<lambda>r c. Num 0"] obtain s' where
    s': "add_n_classes example_learner 1 (\<lambda>r c. Num 0) = Inr s'"
      "n_classes s' = n_classes example_learner + 1" "bias (classifier s') = None"
      "length (weight (classifier s')) = nat (n_classes example_learner + 1)"
      "take (nat (n_classes example_learner)) (weight (classifier s')) = weight (classifier example_learner)"
      "drop (nat (n_classes example_learner)) (weight (classifier s'))
         = map (\<lambda>r. map (\<lambda>c. Num 0) [0..<out_dim example_learner])
             [nat (n_classes example_learner)..<nat (n_classes example_learner + 1)]"
    by (auto simp: example_learner_def)
  have "weight (classifier s') = take 2 (weight (classifier s')) @ drop 2 (weight (classifier s'))"
    by simp
  also have "\<dots> = [[Num 1], [Num 2], [Num 0]]"
    using s'(5,6) by (simp add: example_learner_def)
  finally show ?thesis using s'(1,2,3) by (auto simp: example_learner_def)
qed

section \<open>Loss composition and the training step\<close>

lemma example_onehot: "to_onehot [1] (n_classes scenario_learner) = Inr [[Num 0, Num 1]]"
  by (simp add: to_onehot_def scenario_learner_def numeral_2_eq_2)

text \<open>
  C8. In the first task (\<open>task = 0\<close>) the distillation loss is exactly 0 for every
  batch, and the classification loss is the learner's classification loss function
  (\<^verbatim>\<open>binary_cross_entropy_with_logits\<close>) applied to the logits and targets of all
  class columns, unsliced. In the training loop the targets are the one-hot rows of
  the batch's labels.
\<close>

theorem first_task_loss:
  assumes "task s = 0"
  shows "compute_loss s logits targets idxes train
           = (case clf_loss s logits targets of Inl e \<Rightarrow> Inl e | Inr c \<Rightarrow> Inr (c, Num 0))
       \<and> (\<forall>onehot. to_onehot labels (n_classes s) = Inr onehot \<longrightarrow>
            train_batch s (idxes, logits, labels)
              = (case clf_loss s logits onehot of
                   Inl e \<Rightarrow> Inl e
                 | Inr c \<Rightarrow> Inr (c, Num 0, ZeroGrad # after_loss c (Num 0)))
            \<and> onehot = map (\<lambda>t. map (\<lambda>j. if int j = t then Num 1 else Num 0)
                               [0..<nat (n_classes s)]) labels)"
proof (rule conjI)
  show "compute_loss s logits targets idxes train
           = (case clf_loss s logits targets of Inl e \<Rightarrow> Inl e | Inr c \<Rightarrow> Inr (c, Num 0))"
    using assms by (simp add: compute_loss_def)
next
  show "\<forall>onehot. to_onehot labels (n_classes s) = Inr onehot \<longrightarrow>
            train_batch s (idxes, logits, labels)
              = (case clf_loss s logits onehot of
                   Inl e \<Rightarrow> Inl e
                 | Inr c \<Rightarrow> Inr (c, Num 0, ZeroGrad # after_loss c (Num 0)))
            \<and> onehot = map (\<lambda>t. map (\<lambda>j. if int j = t then Num 1 else Num 0)
                               [0..<nat (n_classes s)]) labels"
  proof (intro allI impI)
    fix onehot assume oh: "to_onehot labels (n_classes s) = Inr onehot"
    have "train_batch s (idxes, logits, labels)
        = (case clf_loss s logits onehot of
             Inl e \<Rightarrow> Inl e
           | Inr c \<Rightarrow> Inr (c, Num 0, ZeroGrad # after_loss c (Num 0)))"
      using assms oh by (simp add: train_batch_def compute_loss_def split: sum.splits)
    moreover from oh have "onehot = map (\<lambda>t. map (\<lambda>j. if int j = t then Num 1 else Num 0)
                               [0..<nat (n_classes s)]) labels"
      by (simp add: to_onehot_def split: if_splits)
    ultimately show "train_batch s (idxes, logits, labels)
              = (case clf_loss s logits onehot of
                   Inl e \<Rightarrow> Inl e
                 | Inr c \<Rightarrow> Inr (c, Num 0, ZeroGrad # after_loss c (Num 0)))
            \<and> onehot = map (\<lambda>t. map (\<lambda>j. if int j = t then Num 1 else Num 0)
                               [0..<nat (n_classes s)]) labels" by simp
  qed
qed

theorem first_task_loss_witness:
  "compute_loss scenario_learner [[Num 1, Num 2]] [[Num 0, Num 1]] [4] True = Inr (Num 3, Num 0)
 \<and> train_batch scenario_learner ([4], [[Num 1, Num 2]], [1])
     = Inr (Num 3, Num 0, [ZeroGrad, Backward, OptimizerStep])"
proof -
  have t0: "task scenario_learner = 0" by (simp add: scenario_learner_def)
  note h = first_task_loss [OF t0, of "[[Num 1, Num 2]]" "[[Num 0, Num 1]]" "[4]" True "[1]"]
  from h [THEN conjunct1]
  have a: "compute_loss scenario_learner [[Num 1, Num 2]] [[Num 0, Num 1]] [4] True
      = Inr (Num 3, Num 0)"
    by (simp add: scenario_learner_def)
  from h [THEN conjunct2, THEN spec, THEN mp, OF example_onehot, THEN conjunct1]
  have "train_batch scenario_learner ([4], [[Num 1, Num 2]], [1])
      = Inr (Num 3, Num 0, [ZeroGrad, Backward, OptimizerStep])"
    by (simp add: scenario_learner_def after_loss_def check_loss_def)
  with a show ?thesis by simp
qed





end
